theory Spec2Isabelle
  imports Main "HOL-Library.Word"
begin

section \<open>Data model (services/googleSheetsAPI.ts)\<close>

text \<open>
  A JavaScript string is a sequence of 16-bit code units. The title of a sheet is the
  one string the code hands to a built-in that reads the code units
  (\<open>encodeURIComponent\<close>), so sheet titles and the selected sheet name are lists of
  code units; \<open>js\<close> writes one with ASCII characters. The other strings are only
  stored, compared with the empty string and shown, and are kept as text
  (\<^typ>\<open>string\<close>).

  The three interfaces of the source become records. Isabelle wants the field names of
  different records in one theory to differ, so the fields \<open>title\<close> and \<open>index\<close> of a
  sheet entry are \<open>sheet_title\<close> and \<open>sheet_index\<close>, and the field \<open>spreadsheet_id\<close> of
  \<open>SheetData\<close> is \<open>data_spreadsheet_id\<close>.
\<close>

type_synonym jsstring = "16 word list"

definition js :: "string \<Rightarrow> jsstring" where
  "js s = map (\<lambda>c. of_nat (of_char c)) s"

record Sheet =
  sheet_id :: int
  sheet_title :: jsstring
  sheet_index :: int
  sheet_type :: string

record SpreadsheetInfo =
  spreadsheet_id :: string
  title :: string
  sheets :: "Sheet list"

record SheetData =
  data_spreadsheet_id :: string
  sheet_name :: string
  data :: "string list list"
  headers :: "string list"

subsection \<open>Requests and their outcomes\<close>

text \<open>
  The promise returned by \<open>axios.get\<close> / \<open>axios.post\<close> either resolves with the response
  body or is rejected (network failure, non-2xx status). A \<open>throw new Error(msg)\<close> of
  the API class is the value \<open>Inl (Error msg)\<close>, the \<open>URIError\<close> thrown by a built-in the
  value \<open>Inl URIError\<close>.
\<close>

datatype 'a axios = Rejected | Resolved 'a

datatype js_error = Error string | URIError

datatype request = GET string | POST string | TIMEOUT nat

definition API_BASE_URL :: string where
  "API_BASE_URL = ''http://localhost:8082''"

subsection \<open>encodeURIComponent\<close>

text \<open>
  The built-in of the JavaScript runtime, as ECMAScript defines it (Encode with the
  unescaped set of \<open>encodeURIComponent\<close>: letters, digits and \<open>- _ . ! ~ * ' ( )\<close>). It
  goes through the code units: a code unit of the unescaped set is copied; otherwise
  the code point at that position is read (one code unit, or a leading and a trailing
  surrogate), a surrogate without its partner throws \<open>URIError\<close>, and every octet of the
  UTF-8 encoding of the code point becomes \<open>%XX\<close> with two upper-case hexadecimal
  digits.
\<close>

definition uriUnescaped :: string where
  "uriUnescaped =
     ''ABCDEFGHIJKLMNOPQRSTUVWXYZabcdefghijklmnopqrstuvwxyz0123456789-_.!~*()''
     @ [CHR 0x27]"

definition unescaped :: "16 word \<Rightarrow> char option" where
  "unescaped c = find (\<lambda>ch. of_char ch = unat c) uriUnescaped"

definition isLeadingSurrogate :: "16 word \<Rightarrow> bool" where
  "isLeadingSurrogate c = (0xD800 \<le> unat c \<and> unat c \<le> 0xDBFF)"

definition isTrailingSurrogate :: "16 word \<Rightarrow> bool" where
  "isTrailingSurrogate c = (0xDC00 \<le> unat c \<and> unat c \<le> 0xDFFF)"

definition surrogatePair :: "16 word \<Rightarrow> 16 word \<Rightarrow> nat" where
  "surrogatePair lead trail =
     (unat lead - 0xD800) * 0x400 + (unat trail - 0xDC00) + 0x10000"

text \<open>The octets of the UTF-8 encoding of a code point.\<close>

definition utf8 :: "nat \<Rightarrow> nat list" where
  "utf8 cp =
     (if cp < 0x80 then [cp]
      else if cp < 0x800 then [0xC0 + cp div 64, 0x80 + cp mod 64]
      else if cp < 0x10000 then
        [0xE0 + cp div 4096, 0x80 + cp div 64 mod 64, 0x80 + cp mod 64]
      else
        [0xF0 + cp div 262144, 0x80 + cp div 4096 mod 64,
         0x80 + cp div 64 mod 64, 0x80 + cp mod 64])"

definition hexDigit :: "nat \<Rightarrow> char" where
  "hexDigit n = ''0123456789ABCDEF'' ! (n mod 16)"

definition percentEncode :: "nat \<Rightarrow> string" where
  "percentEncode octet = [CHR ''%'', hexDigit (octet div 16), hexDigit (octet mod 16)]"

definition escape :: "nat \<Rightarrow> string" where
  "escape cp = concat (map percentEncode (utf8 cp))"

fun encodeURIComponent :: "jsstring \<Rightarrow> js_error + string" where
  "encodeURIComponent [] = Inr []"
| "encodeURIComponent (c # cs) =
     (case unescaped c of
        Some ch \<Rightarrow> map_sum id ((#) ch) (encodeURIComponent cs)
      | None \<Rightarrow>
          if isTrailingSurrogate c then Inl URIError
          else if isLeadingSurrogate c then
            (case cs of
               [] \<Rightarrow> Inl URIError
             | d # ds \<Rightarrow>
                 if isTrailingSurrogate d
                 then map_sum id ((@) (escape (surrogatePair c d))) (encodeURIComponent ds)
                 else Inl URIError)
          else map_sum id ((@) (escape (unat c))) (encodeURIComponent cs))"

text \<open>
  What the result is measured against: the code points of a string (a leading
  surrogate followed by a trailing one is one code point), \<open>isWellFormed\<close> (no code
  point is a surrogate, as \<open>String.prototype.isWellFormed\<close>), the characters a
  segment may consist of, and the decoding of \<open>%XX\<close> back to octets.
\<close>

fun codePoints :: "jsstring \<Rightarrow> nat list" where
  "codePoints [] = []"
| "codePoints (c # cs) =
     (if isLeadingSurrogate c then
        (case cs of
           [] \<Rightarrow> [unat c]
         | d # ds \<Rightarrow>
             if isTrailingSurrogate d then surrogatePair c d # codePoints ds
             else unat c # codePoints cs)
      else unat c # codePoints cs)"

definition isWellFormed :: "jsstring \<Rightarrow> bool" where
  "isWellFormed s = list_all (\<lambda>cp. cp < 0xD800 \<or> 0xDFFF < cp) (codePoints s)"

definition segmentChars :: string where
  "segmentChars =
     ''ABCDEFGHIJKLMNOPQRSTUVWXYZabcdefghijklmnopqrstuvwxyz0123456789-_.!~*()%''
     @ [CHR 0x27]"

definition hexValue :: "char \<Rightarrow> nat option" where
  "hexValue =
     map_of [(CHR ''0'', 0), (CHR ''1'', 1), (CHR ''2'', 2), (CHR ''3'', 3), (CHR ''4'', 4),
             (CHR ''5'', 5), (CHR ''6'', 6), (CHR ''7'', 7), (CHR ''8'', 8), (CHR ''9'', 9),
             (CHR ''A'', 10), (CHR ''B'', 11), (CHR ''C'', 12), (CHR ''D'', 13),
             (CHR ''E'', 14), (CHR ''F'', 15)]"

fun percentDecode :: "string \<Rightarrow> nat list option" where
  "percentDecode [] = Some []"
| "percentDecode (c # cs) =
     (if c = CHR ''%'' then
        (case cs of
           h # l # rest \<Rightarrow>
             (case (hexValue h, hexValue l) of
                (Some a, Some b) \<Rightarrow> map_option ((#) (16 * a + b)) (percentDecode rest)
              | _ \<Rightarrow> None)
         | _ \<Rightarrow> None)
      else map_option ((#) (of_char c)) (percentDecode cs))"

subsection \<open>class GoogleSheetsAPI\<close>

text \<open>
  Each method (lines 24-73 of the file) issues one request and turns its outcome into a
  result or a thrown error: \<open>m_request\<close> is the request the method issues, \<open>api_m\<close>
  what the method returns for each outcome of that request. \<open>checkAuthStatus\<close> is the
  one method whose \<open>catch\<close> returns a value; the others rethrow.
\<close>

definition checkAuthStatus_request :: request where
  "checkAuthStatus_request = GET (API_BASE_URL @ ''/auth/status'')"

fun api_checkAuthStatus :: "bool axios \<Rightarrow> js_error + bool" where
  "api_checkAuthStatus (Resolved authenticated) = Inr authenticated"
| "api_checkAuthStatus Rejected = Inr False"

definition initiateLogin_request :: request where
  "initiateLogin_request = GET (API_BASE_URL @ ''/auth/login'')"

fun api_initiateLogin :: "string axios \<Rightarrow> js_error + string" where
  "api_initiateLogin (Resolved auth_url) = Inr auth_url"
| "api_initiateLogin Rejected = Inl (Error ''Failed to initiate Google OAuth'')"

definition logout_request :: request where
  "logout_request = POST (API_BASE_URL @ ''/auth/logout'')"

fun api_logout :: "unit axios \<Rightarrow> js_error + unit" where
  "api_logout (Resolved u) = Inr ()"
| "api_logout Rejected = Inl (Error ''Failed to logout'')"

definition getSpreadsheets_request :: request where
  "getSpreadsheets_request = GET (API_BASE_URL @ ''/spreadsheets'')"

fun api_getSpreadsheets :: "SpreadsheetInfo list axios \<Rightarrow> js_error + SpreadsheetInfo list" where
  "api_getSpreadsheets (Resolved xs) = Inr xs"
| "api_getSpreadsheets Rejected = Inl (Error ''Failed to fetch spreadsheets'')"

text \<open>
  \<open>getSheetData\<close> builds its URL inside the \<open>try\<close>, before it calls \<open>axios.get\<close>
  (lines 64-67): when \<open>encodeURIComponent\<close> throws, no request is sent and the \<open>catch\<close>
  (lines 69-72) throws \<open>Failed to fetch sheet data\<close>.
\<close>

definition getSheetData_request :: "string \<Rightarrow> jsstring \<Rightarrow> js_error + request" where
  "getSheetData_request spreadsheetId sheetName =
     (case encodeURIComponent sheetName of
        Inr segment \<Rightarrow>
          Inr (GET (API_BASE_URL @ ''/spreadsheet/'' @ spreadsheetId @ ''/sheet/'' @ segment))
      | Inl e \<Rightarrow> Inl (Error ''Failed to fetch sheet data''))"

fun api_getSheetData :: "SheetData axios \<Rightarrow> js_error + SheetData" where
  "api_getSheetData (Resolved d) = Inr d"
| "api_getSheetData Rejected = Inl (Error ''Failed to fetch sheet data'')"

section \<open>The component (components/GoogleSheetsIntegration.tsx)\<close>

subsection \<open>State\<close>

text \<open>The seven \<open>useState\<close> cells (lines 6-12) and their initial values.\<close>

record state =
  isAuthenticated :: bool
  isLoading :: bool
  spreadsheets :: "SpreadsheetInfo list"
  selectedSpreadsheet :: "SpreadsheetInfo option"
  selectedSheet :: jsstring
  sheetData :: "SheetData option"
  error :: string

definition initial_state :: state where
  "initial_state =
     \<lparr>isAuthenticated = False, isLoading = False, spreadsheets = [],
      selectedSpreadsheet = None, selectedSheet = [], sheetData = None, error = []\<rparr>"

text \<open>
  \<open>window.location\<close>: the path and the query, the query as the list of pairs that
  \<open>URLSearchParams\<close> parses it into (\<open>get\<close> returns the first value of a name, which is
  \<^const>\<open>map_of\<close>).
\<close>

record location =
  pathname :: string
  search :: "(string \<times> string) list"

text \<open>\<open>v || d\<close> on a string that may be null or undefined: both and the empty string are falsy.\<close>

fun js_or :: "string option \<Rightarrow> string \<Rightarrow> string" where
  "js_or None d = d"
| "js_or (Some v) d = (if v = [] then d else v)"

text \<open>\<open>xs[i]\<close>: reading past the end of an array gives undefined, it does not throw.\<close>

definition js_index :: "'a list \<Rightarrow> nat \<Rightarrow> 'a option" where
  "js_index xs i = (if i < length xs then Some (xs ! i) else None)"

subsection \<open>Handlers\<close>

text \<open>
  An async handler runs up to its \<open>await\<close>, where it leaves a request in flight
  together with the rest of its body, and resumes when the outcome arrives:
  \<open>h_begin\<close> is the part before the await (it returns the state and what it left in
  flight, if anything), \<open>h_resume\<close> the part after it, and \<open>h\<close> itself the handler
  run to completion with nothing else in between.
\<close>

text \<open>
  \<open>loadSpreadsheets\<close> is lines 66-77, \<open>checkAuthStatus\<close> 29-39, \<open>handleLogin\<close> 41-51,
  \<open>handleLogout\<close> 53-64, \<open>handleSpreadsheetSelect\<close> 79-83, \<open>handleSheetSelect\<close> 85-99
  and \<open>sendToBackend\<close> 101-129.
\<close>

datatype cont =
  K_checkAuthStatus | K_handleLogin | K_handleLogout
  | K_loadSpreadsheets | K_handleSheetSelect | K_sendToBackend

type_synonym inflight = "cont \<times> request"

definition loadSpreadsheets_begin :: "state \<Rightarrow> state \<times> inflight option" where
  "loadSpreadsheets_begin s =
     (s\<lparr>isLoading := True, error := []\<rparr>, Some (K_loadSpreadsheets, getSpreadsheets_request))"

definition loadSpreadsheets_resume :: "state \<Rightarrow> SpreadsheetInfo list axios \<Rightarrow> state" where
  "loadSpreadsheets_resume s r =
     (case api_getSpreadsheets r of
        Inr xs \<Rightarrow> s\<lparr>spreadsheets := xs, isLoading := False\<rparr>
      | Inl e \<Rightarrow> s\<lparr>error := ''Failed to load spreadsheets'', isLoading := False\<rparr>)"

definition loadSpreadsheets :: "state \<Rightarrow> SpreadsheetInfo list axios \<Rightarrow> state" where
  "loadSpreadsheets s r = loadSpreadsheets_resume (fst (loadSpreadsheets_begin s)) r"

definition checkAuthStatus_begin :: "state \<Rightarrow> state \<times> inflight option" where
  "checkAuthStatus_begin s = (s, Some (K_checkAuthStatus, checkAuthStatus_request))"

definition checkAuthStatus_resume :: "state \<Rightarrow> bool axios \<Rightarrow> state \<times> inflight option" where
  "checkAuthStatus_resume s r =
     (case api_checkAuthStatus r of
        Inr authenticated \<Rightarrow>
          (if authenticated then loadSpreadsheets_begin (s\<lparr>isAuthenticated := authenticated\<rparr>)
           else (s\<lparr>isAuthenticated := authenticated\<rparr>, None))
      | Inl e \<Rightarrow> (s, None))"

definition checkAuthStatus :: "state \<Rightarrow> bool axios \<Rightarrow> SpreadsheetInfo list axios \<Rightarrow> state" where
  "checkAuthStatus s r r' =
     (case checkAuthStatus_resume (fst (checkAuthStatus_begin s)) r of
        (s', None) \<Rightarrow> s'
      | (s', Some k) \<Rightarrow> loadSpreadsheets_resume s' r')"

definition handleLogin_begin :: "state \<Rightarrow> state \<times> inflight option" where
  "handleLogin_begin s =
     (s\<lparr>isLoading := True, error := []\<rparr>, Some (K_handleLogin, initiateLogin_request))"

text \<open>The second component is the URL assigned to \<open>window.location.href\<close>, if any.\<close>

definition handleLogin_resume :: "state \<Rightarrow> string axios \<Rightarrow> state \<times> string option" where
  "handleLogin_resume s r =
     (case api_initiateLogin r of
        Inr authUrl \<Rightarrow> (s, Some authUrl)
      | Inl e \<Rightarrow> (s\<lparr>error := ''Failed to initiate Google login'', isLoading := False\<rparr>, None))"

definition handleLogin :: "state \<Rightarrow> string axios \<Rightarrow> state \<times> string option" where
  "handleLogin s r = handleLogin_resume (fst (handleLogin_begin s)) r"

definition handleLogout_begin :: "state \<Rightarrow> state \<times> inflight option" where
  "handleLogout_begin s = (s, Some (K_handleLogout, logout_request))"

definition handleLogout_resume :: "state \<Rightarrow> unit axios \<Rightarrow> state" where
  "handleLogout_resume s r =
     (case api_logout r of
        Inr u \<Rightarrow> s\<lparr>isAuthenticated := False, spreadsheets := [], selectedSpreadsheet := None,
                   selectedSheet := [], sheetData := None\<rparr>
      | Inl e \<Rightarrow> s\<lparr>error := ''Failed to logout''\<rparr>)"

definition handleLogout :: "state \<Rightarrow> unit axios \<Rightarrow> state" where
  "handleLogout s r = handleLogout_resume (fst (handleLogout_begin s)) r"

definition handleSpreadsheetSelect :: "state \<Rightarrow> SpreadsheetInfo \<Rightarrow> state" where
  "handleSpreadsheetSelect s spreadsheet =
     s\<lparr>selectedSpreadsheet := Some spreadsheet, selectedSheet := [], sheetData := None\<rparr>"

text \<open>
  When \<open>getSheetData\<close> throws before it has sent anything, the promise that
  \<open>handleSheetSelect\<close> awaits is rejected already: its \<open>catch\<close> and \<open>finally\<close> run
  before any other event is handled, and nothing is left in flight.
\<close>

definition handleSheetSelect_begin :: "state \<Rightarrow> jsstring \<Rightarrow> state \<times> inflight option" where
  "handleSheetSelect_begin s sheetName =
     (case selectedSpreadsheet s of
        None \<Rightarrow> (s, None)
      | Some sp \<Rightarrow>
          (case getSheetData_request (spreadsheet_id sp) sheetName of
             Inr rq \<Rightarrow>
               (s\<lparr>isLoading := True, error := [], selectedSheet := sheetName\<rparr>,
                Some (K_handleSheetSelect, rq))
           | Inl e \<Rightarrow>
               (s\<lparr>isLoading := True, error := [], selectedSheet := sheetName,
                  error := ''Failed to load sheet data'', isLoading := False\<rparr>,
                None)))"

definition handleSheetSelect_resume :: "state \<Rightarrow> SheetData axios \<Rightarrow> state" where
  "handleSheetSelect_resume s r =
     (case api_getSheetData r of
        Inr d \<Rightarrow> s\<lparr>sheetData := Some d, isLoading := False\<rparr>
      | Inl e \<Rightarrow> s\<lparr>error := ''Failed to load sheet data'', isLoading := False\<rparr>)"

definition handleSheetSelect :: "state \<Rightarrow> jsstring \<Rightarrow> SheetData axios \<Rightarrow> state" where
  "handleSheetSelect s sheetName r =
     (case handleSheetSelect_begin s sheetName of
        (s', None) \<Rightarrow> s'
      | (s', Some k) \<Rightarrow> handleSheetSelect_resume s' r)"

text \<open>
  \<open>sendToBackend\<close> awaits a one-second timer, whose promise always resolves: the \<open>catch\<close>
  branch is never taken. The payload is only logged.
\<close>

definition sendToBackend_begin :: "state \<Rightarrow> state \<times> inflight option" where
  "sendToBackend_begin s =
     (case sheetData s of
        None \<Rightarrow> (s, None)
      | Some d \<Rightarrow> (s\<lparr>isLoading := True, error := []\<rparr>, Some (K_sendToBackend, TIMEOUT 1000)))"

definition sendToBackend_resume :: "state \<Rightarrow> state" where
  "sendToBackend_resume s = s\<lparr>isLoading := False\<rparr>"

definition sendToBackend :: "state \<Rightarrow> state" where
  "sendToBackend s =
     (case sendToBackend_begin s of
        (s', None) \<Rightarrow> s'
      | (s', Some k) \<Rightarrow> sendToBackend_resume s')"

subsection \<open>The mount effect\<close>

text \<open>
  The second half of the \<open>useEffect\<close> body (lines 17-26): the OAuth outcome in the
  query. \<open>history.replaceState\<close> with the bare pathname drops the query.
\<close>

definition oauthCallback :: "state \<Rightarrow> location \<Rightarrow> state \<times> location" where
  "oauthCallback s loc =
     (if map_of (search loc) ''auth'' = Some ''success''
      then (s\<lparr>isAuthenticated := True\<rparr>, loc\<lparr>search := []\<rparr>)
      else if map_of (search loc) ''auth'' = Some ''error''
      then (s\<lparr>error := js_or (map_of (search loc) ''message'') ''Authentication failed''\<rparr>,
            loc\<lparr>search := []\<rparr>)
      else (s, loc))"

subsection \<open>Rendering\<close>

text \<open>
  The elements of the rendered tree (lines 131-278) that carry an \<open>onClick\<close>, in
  document order, each with the value of its \<open>disabled\<close> attribute (False where the
  element has none): the connect button of the logged-out view; the logout button, the
  refresh button, the spreadsheet cards, the sheet buttons and the send button of the
  logged-in view.
\<close>

datatype event =
  E_login | E_logout | E_refresh | E_spreadsheet SpreadsheetInfo | E_sheet jsstring | E_send

definition controls :: "state \<Rightarrow> (event \<times> bool) list" where
  "controls s =
     (if \<not> isAuthenticated s then [(E_login, isLoading s)]
      else [(E_logout, False), (E_refresh, isLoading s)]
           @ map (\<lambda>spreadsheet. (E_spreadsheet spreadsheet, False)) (spreadsheets s)
           @ (case selectedSpreadsheet s of
                None \<Rightarrow> []
              | Some sp \<Rightarrow> map (\<lambda>sheet. (E_sheet (sheet_title sheet), isLoading s)) (sheets sp))
           @ (case sheetData s of None \<Rightarrow> [] | Some d \<Rightarrow> [(E_send, isLoading s)]))"

definition enabled :: "state \<Rightarrow> event \<Rightarrow> bool" where
  "enabled s e = ((e, False) \<in> set (controls s))"

definition errorBanner :: "state \<Rightarrow> string option" where
  "errorBanner s = (if error s = [] then None else Some (error s))"

text \<open>
  The data table of the preview section (lines 249-273). The note carries the total
  number of rows it prints.
\<close>

record table =
  thead :: "string list"
  tbody :: "string list list"
  table_note :: "nat option"

definition renderRow :: "string list \<Rightarrow> string list \<Rightarrow> string list" where
  "renderRow hs row = map (\<lambda>colIndex. js_or (js_index row colIndex) []) [0..<length hs]"

definition renderTable :: "SheetData \<Rightarrow> table option" where
  "renderTable d =
     (if length (headers d) > 0
      then Some \<lparr>thead = headers d,
                 tbody = map (renderRow (headers d)) (take 5 (data d)),
                 table_note = (if length (data d) > 5 then Some (length (data d)) else None)\<rparr>
      else None)"


subsection \<open>The running component\<close>

text \<open>
  The component with its requests in flight. Mounting starts \<open>checkAuthStatus\<close> and
  reads the query; afterwards a step is either a click on an enabled element or the
  arrival of the outcome of a request in flight, which resumes the handler waiting for
  it. Assigning \<open>window.location.href\<close> leaves the page, and nothing happens after it.
\<close>

record config =
  cstate :: state
  cloc :: location
  pending :: "inflight list"
  navigated :: "string option"

datatype arrival =
  A_status "bool axios" | A_login "string axios" | A_logout "unit axios"
  | A_spreadsheets "SpreadsheetInfo list axios" | A_sheetData "SheetData axios" | A_timer

datatype input = Click event | Arrive nat arrival

definition mount :: "location \<Rightarrow> config" where
  "mount loc =
     (case checkAuthStatus_begin initial_state of
        (s, k) \<Rightarrow>
          (case oauthCallback s loc of
             (s', loc') \<Rightarrow>
               \<lparr>cstate = s', cloc = loc', pending = (case k of None \<Rightarrow> [] | Some p \<Rightarrow> [p]),
                navigated = None\<rparr>))"

definition issue :: "config \<Rightarrow> state \<times> inflight option \<Rightarrow> config" where
  "issue c r =
     c\<lparr>cstate := fst r,
       pending := pending c @ (case snd r of None \<Rightarrow> [] | Some p \<Rightarrow> [p])\<rparr>"

fun fire :: "config \<Rightarrow> event \<Rightarrow> config" where
  "fire c E_login = issue c (handleLogin_begin (cstate c))"
| "fire c E_logout = issue c (handleLogout_begin (cstate c))"
| "fire c E_refresh = issue c (loadSpreadsheets_begin (cstate c))"
| "fire c (E_spreadsheet sp) = c\<lparr>cstate := handleSpreadsheetSelect (cstate c) sp\<rparr>"
| "fire c (E_sheet n) = issue c (handleSheetSelect_begin (cstate c) n)"
| "fire c E_send = issue c (sendToBackend_begin (cstate c))"

fun resume :: "config \<Rightarrow> cont \<Rightarrow> arrival \<Rightarrow> config option" where
  "resume c K_checkAuthStatus (A_status r) = Some (issue c (checkAuthStatus_resume (cstate c) r))"
| "resume c K_handleLogin (A_login r) =
     (case handleLogin_resume (cstate c) r of
        (s, url) \<Rightarrow> Some (c\<lparr>cstate := s, navigated := url\<rparr>))"
| "resume c K_handleLogout (A_logout r) = Some (c\<lparr>cstate := handleLogout_resume (cstate c) r\<rparr>)"
| "resume c K_loadSpreadsheets (A_spreadsheets r) =
     Some (c\<lparr>cstate := loadSpreadsheets_resume (cstate c) r\<rparr>)"
| "resume c K_handleSheetSelect (A_sheetData r) =
     Some (c\<lparr>cstate := handleSheetSelect_resume (cstate c) r\<rparr>)"
| "resume c K_sendToBackend A_timer = Some (c\<lparr>cstate := sendToBackend_resume (cstate c)\<rparr>)"
| "resume c k a = None"

definition drop_nth :: "nat \<Rightarrow> 'a list \<Rightarrow> 'a list" where
  "drop_nth i xs = take i xs @ drop (Suc i) xs"

fun step :: "config \<Rightarrow> input \<Rightarrow> config option" where
  "step c (Click e) =
     (if navigated c = None \<and> enabled (cstate c) e then Some (fire c e) else None)"
| "step c (Arrive i a) =
     (if navigated c = None \<and> i < length (pending c)
      then resume (c\<lparr>pending := drop_nth i (pending c)\<rparr>) (fst (pending c ! i)) a
      else None)"

fun run :: "config \<Rightarrow> input list \<Rightarrow> config option" where
  "run c [] = Some c"
| "run c (i # ins) = (case step c i of None \<Rightarrow> None | Some c' \<Rightarrow> run c' ins)"

subsection \<open>Predicates on states and runs\<close>

text \<open>A preview that is present has its spreadsheet and its sheet name.\<close>

definition preview_selected :: "state \<Rightarrow> bool" where
  "preview_selected s =
     (case sheetData s of
        None \<Rightarrow> True
      | Some d \<Rightarrow> selectedSpreadsheet s \<noteq> None \<and> selectedSheet s \<noteq> [])"

text \<open>
  \<open>sheet_request_pending\<close>: a sheet request is in flight. An input is \<open>undisturbed\<close>
  in a configuration unless it is a click on a spreadsheet card or the arrival of a
  successful logout while a sheet request is in flight, or a click on a sheet whose
  title is empty. A run is undisturbed when each of its inputs is, in the configuration
  it meets.
\<close>

definition sheet_request_pending :: "config \<Rightarrow> bool" where
  "sheet_request_pending c = list_ex (\<lambda>p. fst p = K_handleSheetSelect) (pending c)"

fun undisturbed :: "config \<Rightarrow> input \<Rightarrow> bool" where
  "undisturbed c (Click (E_spreadsheet sp)) = (\<not> sheet_request_pending c)"
| "undisturbed c (Click (E_sheet n)) = (n \<noteq> [])"
| "undisturbed c (Arrive i (A_logout (Resolved u))) = (\<not> sheet_request_pending c)"
| "undisturbed c inp = True"

fun undisturbed_run :: "config \<Rightarrow> input list \<Rightarrow> bool" where
  "undisturbed_run c [] = True"
| "undisturbed_run c (i # ins) =
     (undisturbed c i \<and> (case step c i of None \<Rightarrow> True | Some c' \<Rightarrow> undisturbed_run c' ins))"

text \<open>
  The invariant that carries \<open>preview_selected\<close> through a run: while a sheet request is
  in flight, its spreadsheet and sheet name are selected.
\<close>

definition preview_invariant :: "config \<Rightarrow> bool" where
  "preview_invariant c =
     (preview_selected (cstate c)
      \<and> (if sheet_request_pending c
          then selectedSpreadsheet (cstate c) \<noteq> None \<and> selectedSheet (cstate c) \<noteq> []
          else True))"



subsection \<open>Example data\<close>

definition ex_sheet :: Sheet where
  "ex_sheet =
     \<lparr>sheet_id = 0, sheet_title = js ''Sales Q1'', sheet_index = 0, sheet_type = ''GRID''\<rparr>"

definition ex_A :: SpreadsheetInfo where
  "ex_A = \<lparr>spreadsheet_id = ''idA'', title = ''Budget'', sheets = [ex_sheet]\<rparr>"

definition ex_B :: SpreadsheetInfo where
  "ex_B = \<lparr>spreadsheet_id = ''idB'', title = ''Plan'', sheets = []\<rparr>"

definition ex_preview :: SheetData where
  "ex_preview =
     \<lparr>data_spreadsheet_id = ''idA'', sheet_name = ''Sales Q1'',
      data = [[''1'', ''2'']], headers = [''A'', ''B'', ''C'']\<rparr>"

text \<open>Six rows, the first longer and the others shorter than two headers.\<close>

definition ex_six :: "string list list" where
  "ex_six = [[''1'', ''x'', ''y''], [''2''], [''3''], [''4''], [''5''], [''6'']]"

definition ex_long :: SheetData where
  "ex_long =
     \<lparr>data_spreadsheet_id = ''idA'', sheet_name = ''Sales Q1'',
      data = ex_six, headers = [''A'', ''B'']\<rparr>"

definition ex_headless :: SheetData where
  "ex_headless =
     \<lparr>data_spreadsheet_id = ''idA'', sheet_name = ''Sales Q1'',
      data = ex_six, headers = []\<rparr>"

definition ex_loc :: location where
  "ex_loc = \<lparr>pathname = ''/'', search = []\<rparr>"

text \<open>Logged in, with the list loaded, and a refresh of the list under way.\<close>

definition ex_refreshing :: state where
  "ex_refreshing =
     \<lparr>isAuthenticated = True, isLoading = True, spreadsheets = [ex_A, ex_B],
      selectedSpreadsheet = None, selectedSheet = [], sheetData = None, error = []\<rparr>"

text \<open>Logged in, with the sheet \<open>Sales Q1\<close> of \<open>ex_A\<close> previewed.\<close>

definition ex_previewed :: state where
  "ex_previewed =
     \<lparr>isAuthenticated = True, isLoading = False, spreadsheets = [ex_A, ex_B],
      selectedSpreadsheet = Some ex_A, selectedSheet = js ''Sales Q1'',
      sheetData = Some ex_preview, error = []\<rparr>"

text \<open>\<open>ex_B\<close> selected, no sheet selected, and the preview of \<open>ex_A\<close> on screen.\<close>

definition ex_stale :: state where
  "ex_stale =
     \<lparr>isAuthenticated = True, isLoading = False, spreadsheets = [ex_A, ex_B],
      selectedSpreadsheet = Some ex_B, selectedSheet = [],
      sheetData = Some ex_preview, error = []\<rparr>"

text \<open>The same state just after a click on its sheet button: the preview is being fetched.\<close>

definition ex_fetching :: state where
  "ex_fetching = fst (handleSheetSelect_begin ex_previewed (js ''Sales Q1''))"

text \<open>A spreadsheet whose only sheet has the empty title.\<close>

definition ex_U :: SpreadsheetInfo where
  "ex_U =
     \<lparr>spreadsheet_id = ''idU'', title = ''Scratch'',
      sheets = [\<lparr>sheet_id = 0, sheet_title = [], sheet_index = 0, sheet_type = ''GRID''\<rparr>]\<rparr>"

text \<open>Six rows, each shorter than two headers.\<close>

definition ex_short :: SheetData where
  "ex_short =
     \<lparr>data_spreadsheet_id = ''idA'', sheet_name = ''Sales Q1'',
      data = [[''1''], [''2''], [''3''], [''4''], [''5''], [''6'']],
      headers = [''A'', ''B'']\<rparr>"

text \<open>A spreadsheet whose only sheet has a lone leading surrogate as its title.\<close>

definition ex_W :: SpreadsheetInfo where
  "ex_W =
     \<lparr>spreadsheet_id = ''idW'', title = ''Raw'',
      sheets = [\<lparr>sheet_id = 0, sheet_title = [0xD800], sheet_index = 0,
                 sheet_type = ''GRID''\<rparr>]\<rparr>"


text \<open>Logged out, with the preview of \<open>ex_A\<close> installed after the logout.\<close>

definition ex_late :: state where
  "ex_late =
     \<lparr>isAuthenticated = False, isLoading = False, spreadsheets = [],
      selectedSpreadsheet = None, selectedSheet = [],
      sheetData = Some ex_preview, error = []\<rparr>"

section \<open>Properties\<close>

lemmas handler_defs =
  loadSpreadsheets_begin_def loadSpreadsheets_resume_def loadSpreadsheets_def
  checkAuthStatus_begin_def checkAuthStatus_resume_def checkAuthStatus_def
  handleLogin_begin_def handleLogin_resume_def handleLogin_def
  handleLogout_begin_def handleLogout_resume_def handleLogout_def
  handleSpreadsheetSelect_def
  handleSheetSelect_begin_def handleSheetSelect_resume_def handleSheetSelect_def
  sendToBackend_begin_def sendToBackend_resume_def sendToBackend_def

lemmas encoder_defs =
  js_def unescaped_def uriUnescaped_def isLeadingSurrogate_def isTrailingSurrogate_def
  surrogatePair_def utf8_def hexDigit_def percentEncode_def escape_def

lemmas machine_defs =
  mount_def oauthCallback_def issue_def enabled_def controls_def drop_nth_def

subsection \<open>The session check\<close>

text \<open>
  C1. \<open>GoogleSheetsAPI.checkAuthStatus\<close> returns the \<open>authenticated\<close> field of a
  response that arrived and \<open>false\<close> when the request was rejected; it returns in both
  cases, it never throws. The component's \<open>checkAuthStatus\<close> sets its flag to that value,
  whatever the load of the spreadsheet list that follows a \<open>true\<close> does.
\<close>

theorem checkAuthStatus_fail_safe:
  "api_checkAuthStatus (Resolved b) = Inr b
   \<and> api_checkAuthStatus Rejected = Inr False
   \<and> \<not> isl (api_checkAuthStatus r)
   \<and> isAuthenticated (checkAuthStatus s (Resolved b) r') = b
   \<and> isAuthenticated (checkAuthStatus s Rejected r') = False"
proof -
  have ret: "\<not> isl (api_checkAuthStatus r)"
    by (cases r) simp_all
  have flag: "isAuthenticated (checkAuthStatus s (Resolved b) r') = b"
    by (cases r') (simp_all add: handler_defs)
  have down: "isAuthenticated (checkAuthStatus s Rejected r') = False"
    by (simp add: handler_defs)
  from ret flag down show ?thesis by simp
qed

theorem checkAuthStatus_fail_safe_witness:
  "api_checkAuthStatus (Resolved True) = Inr True
   \<and> api_checkAuthStatus Rejected = Inr False
   \<and> isAuthenticated (checkAuthStatus initial_state (Resolved True) (Resolved [ex_A, ex_B]))
   \<and> \<not> isAuthenticated (checkAuthStatus ex_previewed Rejected Rejected)"
  using checkAuthStatus_fail_safe [of True Rejected initial_state "Resolved [ex_A, ex_B]"]
    checkAuthStatus_fail_safe [of True Rejected ex_previewed Rejected]
  by simp


subsection \<open>Logout\<close>

text \<open>
  C2, as amended. When the logout request succeeds, \<open>handleLogout\<close> leaves every state
  unauthenticated with an empty spreadsheet list, no selected spreadsheet, an empty
  sheet name and no preview (the loading flag and the banner keep their values). When
  the request is rejected, the state stays as it was, apart from the banner
  \<open>Failed to logout\<close>.
\<close>

theorem handleLogout_outcomes:
  "handleLogout s (Resolved u) =
     \<lparr>isAuthenticated = False, isLoading = isLoading s, spreadsheets = [],
      selectedSpreadsheet = None, selectedSheet = [], sheetData = None, error = error s\<rparr>
   \<and> handleLogout s Rejected = s\<lparr>error := ''Failed to logout''\<rparr>"
  by (simp add: handler_defs)

theorem handleLogout_outcomes_witness:
  "isAuthenticated ex_previewed
   \<and> handleLogout ex_previewed (Resolved ()) = initial_state"
  using handleLogout_outcomes [of ex_previewed "()"]
  by (simp add: ex_previewed_def initial_state_def)

text \<open>
  The claim as stated fails when the request is rejected: the previewed state stays
  authenticated and keeps its list, its selection and its preview.
\<close>

theorem handleLogout_rejected_counterexample:
  "isAuthenticated ex_previewed
   \<and> isAuthenticated (handleLogout ex_previewed Rejected)
   \<and> spreadsheets (handleLogout ex_previewed Rejected) = [ex_A, ex_B]
   \<and> selectedSpreadsheet (handleLogout ex_previewed Rejected) = Some ex_A
   \<and> selectedSheet (handleLogout ex_previewed Rejected) = js ''Sales Q1''
   \<and> sheetData (handleLogout ex_previewed Rejected) = Some ex_preview"
  by (simp add: handler_defs ex_previewed_def)

subsection \<open>Selecting a spreadsheet\<close>













subsection \<open>The loading flag\<close>

lemma enabled_logout: "enabled s E_logout = isAuthenticated s"
  by (auto simp: enabled_def controls_def split: option.splits)

lemma enabled_card:
  "enabled s (E_spreadsheet sp) = (isAuthenticated s \<and> sp \<in> set (spreadsheets s))"
  by (auto simp: enabled_def controls_def split: option.splits)

lemma enabled_loading:
  "isLoading s \<Longrightarrow> enabled s e \<Longrightarrow>
     e = E_logout \<or> (\<exists>sp. e = E_spreadsheet sp)"
  by (auto simp: enabled_def controls_def split: option.splits if_splits)

lemma arrival_requests:
  assumes "step c (Arrive i a) = Some c'"
  shows "pending c' = drop_nth i (pending c)
         \<or> (a = A_status (Resolved True)
             \<and> pending c' = drop_nth i (pending c)
                              @ [(K_loadSpreadsheets, getSpreadsheets_request)])"
proof -
  from assms have
    res: "resume (c\<lparr>pending := drop_nth i (pending c)\<rparr>) (fst (pending c ! i)) a = Some c'"
    by (auto split: if_splits)
  show ?thesis
  proof (cases a)
    case (A_status r)
    with res show ?thesis
      by (cases "fst (pending c ! i)"; cases r)
        (auto simp: issue_def handler_defs split: if_splits)
  next
    case (A_login r)
    with res show ?thesis
      by (cases "fst (pending c ! i)") (auto split: prod.splits)
  next
    case (A_logout r)
    with res show ?thesis by (cases "fst (pending c ! i)") auto
  next
    case (A_spreadsheets r)
    with res show ?thesis by (cases "fst (pending c ! i)") auto
  next
    case (A_sheetData r)
    with res show ?thesis by (cases "fst (pending c ! i)") auto
  next
    case A_timer
    with res show ?thesis by (cases "fst (pending c ! i)") auto
  qed
qed

text \<open>
  C4, as amended. In every state whose loading flag is true, the connect button, the
  refresh button, every sheet button and the send button are disabled. So while the
  flag is true no click starts a login, a load of the list, a sheet selection or a
  send: the only clicks that are taken are one on logout, which issues the logout
  request and changes nothing else, and one on a spreadsheet card, which selects that
  spreadsheet and issues no request. Logout and every card of the list stay enabled
  whatever the flag is. Of the arrivals, only a session check answered \<open>true\<close> issues a
  request (the load of the list that follows it).
\<close>

theorem loading_disables_request_controls:
  assumes "isLoading (cstate c)"
  shows "\<not> enabled (cstate c) E_login \<and> \<not> enabled (cstate c) E_refresh
         \<and> \<not> enabled (cstate c) (E_sheet n) \<and> \<not> enabled (cstate c) E_send
         \<and> enabled (cstate c) E_logout = isAuthenticated (cstate c)
         \<and> enabled (cstate c) (E_spreadsheet sp)
             = (isAuthenticated (cstate c) \<and> sp \<in> set (spreadsheets (cstate c)))
         \<and> (navigated c = None \<and> isAuthenticated (cstate c)
              \<and> sp \<in> set (spreadsheets (cstate c)) \<longrightarrow>
               step c (Click (E_spreadsheet sp))
                 = Some (c\<lparr>cstate := handleSpreadsheetSelect (cstate c) sp\<rparr>))
         \<and> (step c (Click e) = Some c' \<longrightarrow>
               (e = E_logout \<and> cstate c' = cstate c
                \<and> pending c' = pending c @ [(K_handleLogout, logout_request)])
               \<or> (\<exists>sp'. e = E_spreadsheet sp' \<and> sp' \<in> set (spreadsheets (cstate c))
                     \<and> cstate c' = handleSpreadsheetSelect (cstate c) sp'
                     \<and> pending c' = pending c))
         \<and> (step c (Arrive i a) = Some c'' \<longrightarrow>
               pending c'' = drop_nth i (pending c)
               \<or> (a = A_status (Resolved True)
                   \<and> pending c'' = drop_nth i (pending c)
                                    @ [(K_loadSpreadsheets, getSpreadsheets_request)]))"
proof -
  have dis: "\<not> enabled (cstate c) E_login \<and> \<not> enabled (cstate c) E_refresh
         \<and> \<not> enabled (cstate c) (E_sheet n) \<and> \<not> enabled (cstate c) E_send"
    using assms enabled_loading by blast
  have clicks: "step c (Click e) = Some c' \<longrightarrow>
               (e = E_logout \<and> cstate c' = cstate c
                \<and> pending c' = pending c @ [(K_handleLogout, logout_request)])
               \<or> (\<exists>sp'. e = E_spreadsheet sp' \<and> sp' \<in> set (spreadsheets (cstate c))
                     \<and> cstate c' = handleSpreadsheetSelect (cstate c) sp'
                     \<and> pending c' = pending c)"
  proof
    assume st: "step c (Click e) = Some c'"
    then have en: "enabled (cstate c) e" and c': "c' = fire c e"
      by (auto split: if_splits)
    from assms en consider "e = E_logout" | sp' where "e = E_spreadsheet sp'"
      using enabled_loading by blast
    then show "(e = E_logout \<and> cstate c' = cstate c
                \<and> pending c' = pending c @ [(K_handleLogout, logout_request)])
               \<or> (\<exists>sp'. e = E_spreadsheet sp' \<and> sp' \<in> set (spreadsheets (cstate c))
                     \<and> cstate c' = handleSpreadsheetSelect (cstate c) sp'
                     \<and> pending c' = pending c)"
    proof cases
      case 1
      with c' show ?thesis by (simp add: issue_def handleLogout_begin_def)
    next
      case 2
      with en have "sp' \<in> set (spreadsheets (cstate c))" by (simp add: enabled_card)
      with 2 c' show ?thesis by simp
    qed
  qed
  have taken: "navigated c = None \<and> isAuthenticated (cstate c)
              \<and> sp \<in> set (spreadsheets (cstate c)) \<longrightarrow>
               step c (Click (E_spreadsheet sp))
                 = Some (c\<lparr>cstate := handleSpreadsheetSelect (cstate c) sp\<rparr>)"
    by (simp add: enabled_card)
  from dis taken clicks arrival_requests [of c i a c''] show ?thesis
    by (simp add: enabled_logout enabled_card)
qed

theorem loading_disables_request_controls_witness:
  "isLoading ex_fetching
   \<and> \<not> enabled ex_fetching E_refresh
   \<and> \<not> enabled ex_fetching (E_sheet (js ''Sales Q1''))
   \<and> \<not> enabled ex_fetching E_send
   \<and> enabled ex_fetching E_logout
   \<and> enabled ex_fetching (E_spreadsheet ex_B)
   \<and> map_option pending
       (run (mount \<lparr>pathname = ''/'', search = [(''auth'', ''success'')]\<rparr>)
          [Click E_refresh, Arrive 0 (A_status (Resolved True))])
       = Some [(K_loadSpreadsheets, getSpreadsheets_request),
               (K_loadSpreadsheets, getSpreadsheets_request)]"
  using loading_disables_request_controls
    [of "\<lparr>cstate = ex_fetching, cloc = ex_loc, pending = [], navigated = None\<rparr>"
        "js ''Sales Q1''"]
  by (simp add: ex_fetching_def ex_previewed_def ex_A_def ex_sheet_def machine_defs
      handler_defs initial_state_def getSheetData_request_def encoder_defs)

text \<open>
  The claim as stated fails for the spreadsheet cards. After the session check and the
  load of the list, a click on Refresh sets the loading flag, and the card of \<open>ex_A\<close>
  is still enabled: the click on it is taken and selects \<open>ex_A\<close> while the flag is set.
\<close>

theorem spreadsheet_card_enabled_while_loading_counterexample:
  "map_option cstate
     (run (mount ex_loc)
        [Arrive 0 (A_status (Resolved True)),
         Arrive 0 (A_spreadsheets (Resolved [ex_A, ex_B])),
         Click E_refresh]) = Some ex_refreshing
   \<and> isLoading ex_refreshing
   \<and> enabled ex_refreshing (E_spreadsheet ex_A)
   \<and> map_option cstate
       (run (mount ex_loc)
          [Arrive 0 (A_status (Resolved True)),
           Arrive 0 (A_spreadsheets (Resolved [ex_A, ex_B])),
           Click E_refresh,
           Click (E_spreadsheet ex_A)]) = Some (ex_refreshing\<lparr>selectedSpreadsheet := Some ex_A\<rparr>)"
  by (simp add: machine_defs handler_defs ex_loc_def ex_refreshing_def initial_state_def)

subsection \<open>The OAuth outcome in the query\<close>

text \<open>
  C5, as amended. On mount, if the \<open>auth\<close> parameter of the query is \<open>success\<close>, the
  state becomes authenticated and the query is removed from the location; if it is
  \<open>error\<close>, the banner shows the \<open>message\<close> parameter, or \<open>Authentication failed\<close> when
  that parameter is absent or empty, and the query is removed likewise. Either outcome
  is consumed once: mounting again at the location it leaves behind starts from the
  initial state and changes the location no further.
\<close>

theorem oauthCallback_consumed:
  "(map_of (search loc) ''auth'' = Some ''success'' \<longrightarrow>
      isAuthenticated (cstate (mount loc)) \<and> error (cstate (mount loc)) = []
      \<and> cloc (mount loc) = \<lparr>pathname = pathname loc, search = []\<rparr>
      \<and> cstate (mount (cloc (mount loc))) = initial_state)
   \<and> (map_of (search loc) ''auth'' = Some ''error'' \<longrightarrow>
      \<not> isAuthenticated (cstate (mount loc))
      \<and> error (cstate (mount loc)) =
          (case map_of (search loc) ''message'' of
             None \<Rightarrow> ''Authentication failed''
           | Some m \<Rightarrow> if m = [] then ''Authentication failed'' else m)
      \<and> cloc (mount loc) = \<lparr>pathname = pathname loc, search = []\<rparr>
      \<and> cstate (mount (cloc (mount loc))) = initial_state)
   \<and> cloc (mount (cloc (mount loc))) = cloc (mount loc)"
proof (cases loc)
  case (fields p q)
  show ?thesis
    unfolding fields
    by (auto simp: mount_def oauthCallback_def checkAuthStatus_begin_def initial_state_def
        split: option.splits)
qed

theorem oauthCallback_consumed_witness:
  "isAuthenticated (cstate (mount \<lparr>pathname = ''/'', search = [(''auth'', ''success'')]\<rparr>))
   \<and> cloc (mount \<lparr>pathname = ''/'', search = [(''auth'', ''success'')]\<rparr>) = ex_loc
   \<and> error (cstate (mount \<lparr>pathname = ''/'',
         search = [(''auth'', ''error''), (''message'', ''access_denied'')]\<rparr>)) = ''access_denied''
   \<and> cloc (mount \<lparr>pathname = ''/'',
         search = [(''auth'', ''error''), (''message'', ''access_denied'')]\<rparr>) = ex_loc
   \<and> error (cstate (mount \<lparr>pathname = ''/'', search = [(''auth'', ''error'')]\<rparr>))
       = ''Authentication failed''
   \<and> cstate (mount ex_loc) = initial_state"
  using oauthCallback_consumed [of "\<lparr>pathname = ''/'', search = [(''auth'', ''success'')]\<rparr>"]
    oauthCallback_consumed [of "\<lparr>pathname = ''/'',
         search = [(''auth'', ''error''), (''message'', ''access_denied'')]\<rparr>"]
    oauthCallback_consumed [of "\<lparr>pathname = ''/'', search = [(''auth'', ''error'')]\<rparr>"]
  by (simp add: ex_loc_def mount_def oauthCallback_def checkAuthStatus_begin_def)

text \<open>
  The claim as stated fails for a \<open>message\<close> parameter that is present and empty: the
  banner does not show it, it shows the default.
\<close>

theorem oauthCallback_empty_message_counterexample:
  "map_of (search \<lparr>pathname = ''/'', search = [(''auth'', ''error''), (''message'', [])]\<rparr>)
       ''auth'' = Some ''error''
   \<and> map_of (search \<lparr>pathname = ''/'', search = [(''auth'', ''error''), (''message'', [])]\<rparr>)
       ''message'' = Some []
   \<and> error (cstate (mount \<lparr>pathname = ''/'',
         search = [(''auth'', ''error''), (''message'', [])]\<rparr>)) = ''Authentication failed''"
  by (simp add: mount_def oauthCallback_def checkAuthStatus_begin_def initial_state_def)


subsection \<open>A preview has its spreadsheet and its sheet\<close>

lemma sheet_request_pending_drop:
  "sheet_request_pending (c\<lparr>pending := drop_nth i (pending c)\<rparr>) \<Longrightarrow> sheet_request_pending c"
  by (auto simp: sheet_request_pending_def drop_nth_def list_ex_iff dest: in_set_takeD in_set_dropD)

lemma sheet_request_pending_nth:
  "i < length (pending c) \<Longrightarrow> fst (pending c ! i) = K_handleSheetSelect \<Longrightarrow> sheet_request_pending c"
  by (auto simp: sheet_request_pending_def list_ex_iff intro: nth_mem)

lemma preview_invariant_click:
  assumes "preview_invariant c" and "undisturbed c (Click e)" and "enabled (cstate c) e"
  shows "preview_invariant (fire c e)"
proof (cases e)
  case E_login
  with assms show ?thesis
    by (auto simp: preview_invariant_def preview_selected_def sheet_request_pending_def
        issue_def handler_defs split: option.splits if_splits)
next
  case E_logout
  with assms show ?thesis
    by (auto simp: preview_invariant_def preview_selected_def sheet_request_pending_def
        issue_def handler_defs split: option.splits if_splits)
next
  case E_refresh
  with assms show ?thesis
    by (auto simp: preview_invariant_def preview_selected_def sheet_request_pending_def
        issue_def handler_defs split: option.splits if_splits)
next
  case (E_spreadsheet sp)
  with assms show ?thesis
    by (auto simp: preview_invariant_def preview_selected_def sheet_request_pending_def
        handler_defs split: option.splits if_splits)
next
  case (E_sheet n)
  from assms(3) have "selectedSpreadsheet (cstate c) \<noteq> None"
    unfolding E_sheet
    by (cases "selectedSpreadsheet (cstate c)")
      (auto simp: enabled_def controls_def split: if_splits)
  with assms E_sheet show ?thesis
    by (auto simp: preview_invariant_def preview_selected_def sheet_request_pending_def
        issue_def handler_defs split: option.splits if_splits sum.splits)
next
  case E_send
  with assms show ?thesis
    by (auto simp: preview_invariant_def preview_selected_def sheet_request_pending_def
        issue_def handler_defs split: option.splits if_splits)
qed

lemma preview_invariant_arrive:
  assumes "preview_invariant c" and "undisturbed c (Arrive i a)"
    and "step c (Arrive i a) = Some c'"
  shows "preview_invariant c'"
proof -
  from assms(3) have i: "i < length (pending c)"
    and res: "resume (c\<lparr>pending := drop_nth i (pending c)\<rparr>) (fst (pending c ! i)) a = Some c'"
    by (auto split: if_splits)
  let ?c = "c\<lparr>pending := drop_nth i (pending c)\<rparr>"
  note sub = sheet_request_pending_drop [where c = c and i = i]
  have inv: "preview_invariant ?c"
    using assms(1) sub by (auto simp: preview_invariant_def)
  show ?thesis
  proof (cases "fst (pending c ! i)")
    case K_checkAuthStatus
    with res obtain r where "a = A_status r" and "c' = issue ?c (checkAuthStatus_resume (cstate c) r)"
      by (cases a) auto
    with inv show ?thesis
      by (cases r) (auto simp: preview_invariant_def preview_selected_def sheet_request_pending_def
          issue_def handler_defs split: option.splits if_splits)
  next
    case K_handleLogin
    with res obtain r where "a = A_login r"
      and "c' = ?c\<lparr>cstate := fst (handleLogin_resume (cstate c) r),
                    navigated := snd (handleLogin_resume (cstate c) r)\<rparr>"
      by (cases a) (auto split: prod.splits)
    with inv show ?thesis
      by (cases r) (auto simp: preview_invariant_def preview_selected_def sheet_request_pending_def
          handler_defs split: option.splits if_splits)
  next
    case K_handleLogout
    with res obtain r where a: "a = A_logout r"
      and c': "c' = ?c\<lparr>cstate := handleLogout_resume (cstate c) r\<rparr>"
      by (cases a) auto
    show ?thesis
    proof (cases r)
      case Rejected
      with inv c' show ?thesis
        by (auto simp: preview_invariant_def preview_selected_def sheet_request_pending_def
            handler_defs split: option.splits if_splits)
    next
      case (Resolved u)
      with assms(2) a have "\<not> sheet_request_pending c" by simp
      with sub have "\<not> sheet_request_pending ?c" by blast
      with c' Resolved show ?thesis
        by (auto simp: preview_invariant_def preview_selected_def sheet_request_pending_def
            handler_defs split: option.splits if_splits)
    qed
  next
    case K_loadSpreadsheets
    with res obtain r where "a = A_spreadsheets r"
      and "c' = ?c\<lparr>cstate := loadSpreadsheets_resume (cstate c) r\<rparr>"
      by (cases a) auto
    with inv show ?thesis
      by (cases r) (auto simp: preview_invariant_def preview_selected_def sheet_request_pending_def
          handler_defs split: option.splits if_splits)
  next
    case K_handleSheetSelect
    with res obtain r where "a = A_sheetData r"
      and c': "c' = ?c\<lparr>cstate := handleSheetSelect_resume (cstate c) r\<rparr>"
      by (cases a) auto
    from i K_handleSheetSelect have "sheet_request_pending c"
      by (rule sheet_request_pending_nth)
    with assms(1) have sel: "selectedSpreadsheet (cstate c) \<noteq> None" "selectedSheet (cstate c) \<noteq> []"
      by (auto simp: preview_invariant_def)
    with inv c' show ?thesis
      by (cases r) (auto simp: preview_invariant_def preview_selected_def sheet_request_pending_def
          handler_defs split: option.splits if_splits)
  next
    case K_sendToBackend
    with res have "a = A_timer" and "c' = ?c\<lparr>cstate := sendToBackend_resume (cstate c)\<rparr>"
      by (cases a; auto)+
    with inv show ?thesis
      by (auto simp: preview_invariant_def preview_selected_def sheet_request_pending_def
          handler_defs split: option.splits if_splits)
  qed
qed

lemma preview_invariant_step:
  assumes "preview_invariant c" and "undisturbed c inp" and "step c inp = Some c'"
  shows "preview_invariant c'"
proof (cases inp)
  case (Click e)
  with assms(3) have "enabled (cstate c) e" and "c' = fire c e"
    by (auto split: if_splits)
  with assms(1,2) Click show ?thesis by (simp add: preview_invariant_click)
next
  case (Arrive i a)
  with assms show ?thesis by (simp only: preview_invariant_arrive)
qed

lemma preview_invariant_run:
  "preview_invariant c \<Longrightarrow> undisturbed_run c ins \<Longrightarrow> run c ins = Some c' \<Longrightarrow>
     preview_invariant c'"
proof (induction ins arbitrary: c)
  case Nil
  then show ?case by simp
next
  case (Cons i ins)
  from Cons.prems(3) obtain c1 where s: "step c i = Some c1" and r: "run c1 ins = Some c'"
    by (auto split: option.splits)
  from Cons.prems(2) s have u: "undisturbed c i" and ur: "undisturbed_run c1 ins"
    by simp_all
  from Cons.prems(1) u s have "preview_invariant c1" by (rule preview_invariant_step)
  then show ?case using ur r by (rule Cons.IH)
qed

lemma preview_invariant_mount: "preview_invariant (mount loc)"
  by (auto simp: preview_invariant_def preview_selected_def sheet_request_pending_def
      mount_def oauthCallback_def checkAuthStatus_begin_def initial_state_def)

text \<open>
  C6, as amended. In every state reached from the mount by clicks and arrivals in any
  order, a preview that is present has a selected spreadsheet and a non-empty selected
  sheet name, provided that on the way no spreadsheet card was clicked and no logout
  succeeded while a sheet request was in flight, and no sheet with an empty title was
  clicked. Under that proviso every step of every handler (session check, login,
  logout, load of the list, spreadsheet select, sheet select, send), before and after
  its await, preserves the invariant, which also says that the spreadsheet and the
  sheet name of a sheet request in flight are still selected.
\<close>

theorem preview_selected_undisturbed:
  "preview_invariant (mount loc)
   \<and> (preview_invariant c \<and> undisturbed c inp \<and> step c inp = Some c'
        \<longrightarrow> preview_invariant c')
   \<and> (undisturbed_run (mount loc) ins \<and> run (mount loc) ins = Some c''
        \<longrightarrow> preview_invariant c'' \<and> preview_selected (cstate c''))"
proof -
  have reach: "preview_invariant c'' \<and> preview_selected (cstate c'')"
    if "undisturbed_run (mount loc) ins" and "run (mount loc) ins = Some c''"
  proof -
    from preview_invariant_mount that have "preview_invariant c''"
      by (rule preview_invariant_run)
    then show ?thesis by (simp add: preview_invariant_def)
  qed
  from preview_invariant_mount preview_invariant_step [of c inp c'] reach
  show ?thesis by blast
qed

theorem preview_selected_undisturbed_witness:
  "undisturbed_run (mount \<lparr>pathname = ''/'', search = [(''auth'', ''success'')]\<rparr>)
     [Click E_refresh,
      Arrive 0 (A_status (Resolved True)),
      Arrive 1 (A_spreadsheets (Resolved [ex_A, ex_B])),
      Click (E_spreadsheet ex_A),
      Click (E_sheet (js ''Sales Q1'')),
      Click E_logout,
      Arrive 0 (A_spreadsheets Rejected),
      Arrive 0 (A_sheetData (Resolved ex_preview)),
      Arrive 0 (A_logout Rejected)]
   \<and> map_option cstate
       (run (mount \<lparr>pathname = ''/'', search = [(''auth'', ''success'')]\<rparr>)
          [Click E_refresh,
           Arrive 0 (A_status (Resolved True)),
           Arrive 1 (A_spreadsheets (Resolved [ex_A, ex_B])),
           Click (E_spreadsheet ex_A),
           Click (E_sheet (js ''Sales Q1'')),
           Click E_logout,
           Arrive 0 (A_spreadsheets Rejected),
           Arrive 0 (A_sheetData (Resolved ex_preview)),
           Arrive 0 (A_logout Rejected)])
       = Some (ex_previewed\<lparr>error := ''Failed to logout''\<rparr>)
   \<and> preview_selected (ex_previewed\<lparr>error := ''Failed to logout''\<rparr>)"
  using preview_selected_undisturbed
    [of "\<lparr>pathname = ''/'', search = [(''auth'', ''success'')]\<rparr>"
        "mount ex_loc" "Click E_login" "mount ex_loc"
        "[Click E_refresh,
          Arrive 0 (A_status (Resolved True)),
          Arrive 1 (A_spreadsheets (Resolved [ex_A, ex_B])),
          Click (E_spreadsheet ex_A),
          Click (E_sheet (js ''Sales Q1'')),
          Click E_logout,
          Arrive 0 (A_spreadsheets Rejected),
          Arrive 0 (A_sheetData (Resolved ex_preview)),
          Arrive 0 (A_logout Rejected)]"]
  by (simp add: machine_defs handler_defs sheet_request_pending_def preview_selected_def
      initial_state_def ex_previewed_def ex_A_def ex_sheet_def getSheetData_request_def
      encoder_defs)

text \<open>
  The claim as stated fails in reachable states, in each of the three ways the proviso
  names. The user selects \<open>ex_A\<close>, clicks its sheet and, while the preview is being
  fetched, selects \<open>ex_B\<close>: the preview that arrives is installed with \<open>ex_B\<close> selected
  and no sheet name. Or the user logs out instead and the logout succeeds first: the
  preview arrives with no spreadsheet selected. Or a sheet has the empty title: its
  preview arrives under the empty sheet name.
\<close>

theorem stale_preview_counterexample:
  "map_option cstate
     (run (mount ex_loc)
        [Arrive 0 (A_status (Resolved True)),
         Arrive 0 (A_spreadsheets (Resolved [ex_A, ex_B])),
         Click (E_spreadsheet ex_A),
         Click (E_sheet (js ''Sales Q1'')),
         Click (E_spreadsheet ex_B),
         Arrive 0 (A_sheetData (Resolved ex_preview))]) = Some ex_stale
   \<and> sheetData ex_stale = Some ex_preview
   \<and> selectedSpreadsheet ex_stale = Some ex_B
   \<and> selectedSheet ex_stale = []
   \<and> \<not> preview_selected ex_stale
   \<and> map_option cstate
       (run (mount ex_loc)
          [Arrive 0 (A_status (Resolved True)),
           Arrive 0 (A_spreadsheets (Resolved [ex_A, ex_B])),
           Click (E_spreadsheet ex_A),
           Click (E_sheet (js ''Sales Q1'')),
           Click E_logout,
           Arrive 1 (A_logout (Resolved ())),
           Arrive 0 (A_sheetData (Resolved ex_preview))]) = Some ex_late
   \<and> \<not> preview_selected ex_late
   \<and> map_option (preview_selected \<circ> cstate)
       (run (mount ex_loc)
          [Arrive 0 (A_status (Resolved True)),
           Arrive 0 (A_spreadsheets (Resolved [ex_U])),
           Click (E_spreadsheet ex_U),
           Click (E_sheet []),
           Arrive 0 (A_sheetData (Resolved ex_preview))]) = Some False"
  by (simp add: machine_defs handler_defs preview_selected_def initial_state_def
      ex_loc_def ex_stale_def ex_late_def ex_A_def ex_sheet_def ex_U_def
      getSheetData_request_def encoder_defs)

subsection \<open>The path of a sheet request\<close>

lemma hexValue_hexDigit: "n < 16 \<Longrightarrow> hexValue (hexDigit n) = Some n"
proof -
  assume "n < 16"
  then have "n \<in> set [0..<16]" by simp
  then show ?thesis
    unfolding hexDigit_def hexValue_def by (simp add: upt_rec) (elim disjE; simp)
qed

lemma percentDecode_percentEncode:
  assumes "b < 256"
  shows "percentDecode (percentEncode b @ rest) = map_option ((#) b) (percentDecode rest)"
proof -
  from assms have "b div 16 < 16" by simp
  then have hi: "hexValue (hexDigit (b div 16)) = Some (b div 16)" by (rule hexValue_hexDigit)
  have lo: "hexValue (hexDigit (b mod 16)) = Some (b mod 16)" by (rule hexValue_hexDigit) simp
  show ?thesis by (simp add: percentEncode_def hi lo)
qed

lemma percentDecode_octets:
  "list_all (\<lambda>b. b < 256) bs \<Longrightarrow>
     percentDecode (concat (map percentEncode bs) @ rest)
       = map_option ((@) bs) (percentDecode rest)"
proof (induction bs)
  case Nil
  show ?case by (simp add: option.map_ident cong: option.map_cong)
next
  case (Cons b bs)
  then have "percentDecode (concat (map percentEncode (b # bs)) @ rest)
      = map_option ((#) b) (map_option ((@) bs) (percentDecode rest))"
    by (simp add: percentDecode_percentEncode)
  also have "\<dots> = map_option ((@) (b # bs)) (percentDecode rest)"
    by (cases "percentDecode rest") simp_all
  finally show ?case .
qed

lemma utf8_octets: "cp < 0x110000 \<Longrightarrow> list_all (\<lambda>b. b < 256) (utf8 cp)"
  by (simp add: utf8_def) (auto simp: less_mult_imp_div_less)

lemma percentDecode_escape:
  "cp < 0x110000 \<Longrightarrow>
     percentDecode (escape cp @ rest) = map_option ((@) (utf8 cp)) (percentDecode rest)"
  unfolding escape_def by (rule percentDecode_octets) (rule utf8_octets)

lemma surrogatePair_range:
  "isLeadingSurrogate c \<Longrightarrow> isTrailingSurrogate d \<Longrightarrow>
     0x10000 \<le> surrogatePair c d \<and> surrogatePair c d < 0x110000"
  unfolding isLeadingSurrogate_def isTrailingSurrogate_def surrogatePair_def by linarith

lemma unat_code_unit: "unat (c :: 16 word) < 0x110000"
proof -
  have "unat c < 2 ^ 16" using unsigned_less [of c] by simp
  then show ?thesis by simp
qed

lemma uriUnescaped_ascii: "ch \<in> set uriUnescaped \<Longrightarrow> ch \<noteq> CHR ''%'' \<and> of_char ch < (128 :: nat)"
  by (auto simp: uriUnescaped_def)

lemma unescaped_Some:
  assumes "unescaped c = Some ch"
  shows "ch \<in> set uriUnescaped" and "of_char ch = unat c"
  using assms by (auto simp: unescaped_def find_Some_iff)

lemma hexDigit_segmentChars: "hexDigit n \<in> set segmentChars"
proof -
  have "hexDigit n \<in> set ''0123456789ABCDEF''"
    unfolding hexDigit_def by (rule nth_mem) simp
  then show ?thesis by (auto simp: segmentChars_def)
qed

lemma escape_segmentChars: "set (escape cp) \<subseteq> set segmentChars"
proof -
  have "CHR ''%'' \<in> set segmentChars" by (simp add: segmentChars_def)
  with hexDigit_segmentChars show ?thesis
    by (auto simp: escape_def percentEncode_def)
qed

lemma unescaped_segmentChars: "ch \<in> set uriUnescaped \<Longrightarrow> ch \<in> set segmentChars"
  by (auto simp: uriUnescaped_def segmentChars_def)

lemma unescaped_no_surrogate:
  assumes "unescaped c = Some ch"
  shows "\<not> isLeadingSurrogate c" and "\<not> isTrailingSurrogate c" and "unat c < 0x80"
proof -
  from assms have "ch \<in> set uriUnescaped" and eq: "of_char ch = unat c"
    by (rule unescaped_Some)+
  then have "of_char ch < (128 :: nat)" using uriUnescaped_ascii by blast
  with eq show "unat c < 0x80" by simp
  then show "\<not> isLeadingSurrogate c" and "\<not> isTrailingSurrogate c"
    by (simp_all add: isLeadingSurrogate_def isTrailingSurrogate_def)
qed

lemma surrogates_disjoint: "isLeadingSurrogate c \<Longrightarrow> \<not> isTrailingSurrogate c"
  by (simp add: isLeadingSurrogate_def isTrailingSurrogate_def)

lemma isWellFormed_Nil: "isWellFormed []"
  by (simp add: isWellFormed_def)

lemma isWellFormed_plain:
  "\<not> isLeadingSurrogate c \<Longrightarrow> isWellFormed (c # cs) = (\<not> isTrailingSurrogate c \<and> isWellFormed cs)"
  by (auto simp: isWellFormed_def isLeadingSurrogate_def isTrailingSurrogate_def)

lemma isWellFormed_lead_end: "isLeadingSurrogate c \<Longrightarrow> \<not> isWellFormed [c]"
  by (auto simp: isWellFormed_def isLeadingSurrogate_def)

lemma isWellFormed_pair:
  "isLeadingSurrogate c \<Longrightarrow> isTrailingSurrogate d \<Longrightarrow>
     isWellFormed (c # d # ds) = isWellFormed ds"
  using surrogatePair_range [of c d] by (auto simp: isWellFormed_def)

lemma isWellFormed_lead_alone:
  "isLeadingSurrogate c \<Longrightarrow> \<not> isTrailingSurrogate d \<Longrightarrow> \<not> isWellFormed (c # d # ds)"
  by (auto simp: isWellFormed_def isLeadingSurrogate_def)

lemma encodeURIComponent_Inr:
  "encodeURIComponent s = Inr seg \<Longrightarrow>
     isWellFormed s
     \<and> percentDecode seg = Some (concat (map utf8 (codePoints s)))
     \<and> set seg \<subseteq> set segmentChars"
proof (induction s arbitrary: seg rule: encodeURIComponent.induct)
  case 1
  then show ?case by (simp add: isWellFormed_Nil)
next
  case (2 c cs)
  show ?case
  proof (cases "unescaped c")
    case (Some ch)
    with "2.prems" obtain seg' where seg: "seg = ch # seg'"
      and enc: "encodeURIComponent cs = Inr seg'"
      by (cases "encodeURIComponent cs") auto
    note ih = "2.IH"(3) [OF Some enc]
    from Some have ch: "ch \<in> set uriUnescaped" and eq: "of_char ch = unat c"
      by (rule unescaped_Some)+
    note ns = unescaped_no_surrogate [OF Some]
    from ns ih have wf: "isWellFormed (c # cs)" by (simp add: isWellFormed_plain)
    from ns have cps: "codePoints (c # cs) = unat c # codePoints cs" by simp
    from ns have u: "utf8 (unat c) = [unat c]" by (simp add: utf8_def)
    from ch have "ch \<noteq> CHR ''%''" using uriUnescaped_ascii by blast
    with ih eq have dec: "percentDecode seg = Some (concat (map utf8 (codePoints (c # cs))))"
      unfolding seg cps by (simp add: u)
    from ch ih have "set seg \<subseteq> set segmentChars"
      unfolding seg using unescaped_segmentChars by auto
    with wf dec show ?thesis by blast
  next
    case None
    show ?thesis
    proof (cases "isTrailingSurrogate c")
      case True
      with None "2.prems" show ?thesis by simp
    next
      case nt: False
      show ?thesis
      proof (cases "isLeadingSurrogate c")
        case lead: True
        with None nt "2.prems" obtain d ds seg' where cs: "cs = d # ds"
          and tr: "isTrailingSurrogate d"
          and seg: "seg = escape (surrogatePair c d) @ seg'"
          and enc: "encodeURIComponent ds = Inr seg'"
          by (cases cs; cases "encodeURIComponent (tl cs)") (auto split: if_splits)
        note ih = "2.IH"(1) [OF None nt lead cs tr enc]
        note rg = surrogatePair_range [OF lead tr]
        from lead tr ih have wf: "isWellFormed (c # cs)"
          unfolding cs by (simp add: isWellFormed_pair)
        from lead tr have cps: "codePoints (c # cs) = surrogatePair c d # codePoints ds"
          unfolding cs by simp
        from rg ih have dec: "percentDecode seg = Some (concat (map utf8 (codePoints (c # cs))))"
          unfolding seg cps by (simp add: percentDecode_escape)
        from ih have "set seg \<subseteq> set segmentChars"
          unfolding seg using escape_segmentChars by auto
        with wf dec show ?thesis by blast
      next
        case nl: False
        with None nt "2.prems" obtain seg' where seg: "seg = escape (unat c) @ seg'"
          and enc: "encodeURIComponent cs = Inr seg'"
          by (cases "encodeURIComponent cs") auto
        note ih = "2.IH"(2) [OF None nt nl enc]
        from nl nt ih have wf: "isWellFormed (c # cs)" by (simp add: isWellFormed_plain)
        from nl have cps: "codePoints (c # cs) = unat c # codePoints cs" by simp
        from ih have dec: "percentDecode seg = Some (concat (map utf8 (codePoints (c # cs))))"
          unfolding seg cps by (simp add: percentDecode_escape unat_code_unit)
        from ih have "set seg \<subseteq> set segmentChars"
          unfolding seg using escape_segmentChars by auto
        with wf dec show ?thesis by blast
      qed
    qed
  qed
qed

lemma encodeURIComponent_Inl:
  "encodeURIComponent s = Inl e \<Longrightarrow> e = URIError \<and> \<not> isWellFormed s"
proof (induction s rule: encodeURIComponent.induct)
  case 1
  then show ?case by simp
next
  case (2 c cs)
  show ?case
  proof (cases "unescaped c")
    case (Some ch)
    with "2.prems" have enc: "encodeURIComponent cs = Inl e"
      by (cases "encodeURIComponent cs") auto
    note ih = "2.IH"(3) [OF Some enc]
    with unescaped_no_surrogate [OF Some] show ?thesis by (simp add: isWellFormed_plain)
  next
    case None
    show ?thesis
    proof (cases "isTrailingSurrogate c")
      case True
      then have "\<not> isLeadingSurrogate c" using surrogates_disjoint by blast
      with True None "2.prems" show ?thesis by (simp add: isWellFormed_plain)
    next
      case nt: False
      show ?thesis
      proof (cases "isLeadingSurrogate c")
        case lead: True
        show ?thesis
        proof (cases cs)
          case Nil
          with None nt lead "2.prems" show ?thesis by (simp add: isWellFormed_lead_end)
        next
          case (Cons d ds)
          show ?thesis
          proof (cases "isTrailingSurrogate d")
            case tr: True
            with None nt lead Cons "2.prems" have enc: "encodeURIComponent ds = Inl e"
              by (cases "encodeURIComponent ds") auto
            note ih = "2.IH"(1) [OF None nt lead Cons tr enc]
            with lead tr show ?thesis unfolding Cons by (simp add: isWellFormed_pair)
          next
            case False
            with None nt lead Cons "2.prems" show ?thesis
              by (simp add: isWellFormed_lead_alone)
          qed
        qed
      next
        case nl: False
        with None nt "2.prems" have enc: "encodeURIComponent cs = Inl e"
          by (cases "encodeURIComponent cs") auto
        note ih = "2.IH"(2) [OF None nt nl enc]
        with nl nt show ?thesis by (simp add: isWellFormed_plain)
      qed
    qed
  qed
qed

text \<open>
  C7, as amended. For every spreadsheet id and every sheet name that is well formed
  (no surrogate without its partner), \<open>getSheetData\<close> requests the path
  \<open>/spreadsheet/{id}/sheet/{segment}\<close>, where the segment is the percent-encoding of the
  sheet name: it is written in letters, digits, \<open>- _ . ! ~ * ' ( )\<close> and \<open>%\<close> only, and
  decoding its \<open>%XX\<close> gives back the octets of the UTF-8 encoding of the name. The
  segment is a function of the name alone, so the same name gives the same segment on
  every call, and the request \<open>handleSheetSelect\<close> issues depends on nothing but the id
  of the selected spreadsheet and the name. For a name that is not well formed,
  \<open>encodeURIComponent\<close> throws: \<open>getSheetData\<close> fails with \<open>Failed to fetch sheet data\<close>
  and no request is issued.
\<close>

theorem getSheetData_request_encoded:
  "(isWellFormed sheetName \<longrightarrow>
      (\<exists>segment.
         encodeURIComponent sheetName = Inr segment
         \<and> getSheetData_request spreadsheetId sheetName =
             Inr (GET (''http://localhost:8082/spreadsheet/'' @ spreadsheetId @ ''/sheet/''
                       @ segment))
         \<and> set segment \<subseteq>
             set (''ABCDEFGHIJKLMNOPQRSTUVWXYZabcdefghijklmnopqrstuvwxyz0123456789-_.!~*()%''
                  @ [CHR 0x27])
         \<and> percentDecode segment = Some (concat (map utf8 (codePoints sheetName)))
         \<and> snd (handleSheetSelect_begin s sheetName) =
             (case selectedSpreadsheet s of
                None \<Rightarrow> None
              | Some sp \<Rightarrow>
                  Some (K_handleSheetSelect,
                        GET (''http://localhost:8082/spreadsheet/'' @ spreadsheet_id sp
                             @ ''/sheet/'' @ segment)))))
   \<and> (\<not> isWellFormed sheetName \<longrightarrow>
        encodeURIComponent sheetName = Inl URIError
        \<and> getSheetData_request spreadsheetId sheetName
            = Inl (Error ''Failed to fetch sheet data'')
        \<and> snd (handleSheetSelect_begin s sheetName) = None)"
proof (cases "encodeURIComponent sheetName")
  case (Inr segment)
  note spec = encodeURIComponent_Inr [OF Inr]
  have path: "getSheetData_request sid sheetName =
      Inr (GET (''http://localhost:8082/spreadsheet/'' @ sid @ ''/sheet/'' @ segment))" for sid
    by (simp add: getSheetData_request_def API_BASE_URL_def Inr)
  have issued: "snd (handleSheetSelect_begin s sheetName) =
       (case selectedSpreadsheet s of
          None \<Rightarrow> None
        | Some sp \<Rightarrow>
            Some (K_handleSheetSelect,
                  GET (''http://localhost:8082/spreadsheet/'' @ spreadsheet_id sp
                       @ ''/sheet/'' @ segment)))"
    by (simp add: handleSheetSelect_begin_def path split: option.splits)
  from spec have chars: "set segment \<subseteq>
       set (''ABCDEFGHIJKLMNOPQRSTUVWXYZabcdefghijklmnopqrstuvwxyz0123456789-_.!~*()%''
            @ [CHR 0x27])"
    by (simp add: segmentChars_def)
  from spec path issued chars Inr show ?thesis by simp
next
  case (Inl e)
  from encodeURIComponent_Inl [OF Inl] have e: "e = URIError" and bad: "\<not> isWellFormed sheetName"
    by simp_all
  have path: "getSheetData_request sid sheetName = Inl (Error ''Failed to fetch sheet data'')"
    for sid
    by (simp add: getSheetData_request_def Inl)
  have "snd (handleSheetSelect_begin s sheetName) = None"
    by (simp add: handleSheetSelect_begin_def path split: option.splits)
  with e bad path Inl show ?thesis by simp
qed

theorem getSheetData_request_encoded_witness:
  "isWellFormed (js ''Sales Q1'')
   \<and> getSheetData_request ''idA'' (js ''Sales Q1'') =
       Inr (GET ''http://localhost:8082/spreadsheet/idA/sheet/Sales%20Q1'')
   \<and> snd (handleSheetSelect_begin ex_previewed (js ''Sales Q1'')) =
       Some (K_handleSheetSelect, GET ''http://localhost:8082/spreadsheet/idA/sheet/Sales%20Q1'')
   \<and> percentDecode ''Sales%20Q1'' = Some [83, 97, 108, 101, 115, 32, 81, 49]
   \<and> encodeURIComponent (js ''a/b?c#d&e=f+g'') = Inr ''a%2Fb%3Fc%23d%26e%3Df%2Bg''
   \<and> encodeURIComponent [0xE9] = Inr ''%C3%A9''
   \<and> encodeURIComponent [0x20AC] = Inr ''%E2%82%AC''
   \<and> isWellFormed [0xD83D, 0xDE00]
   \<and> encodeURIComponent [0xD83D, 0xDE00] = Inr ''%F0%9F%98%80''"
  using getSheetData_request_encoded [of "js ''Sales Q1''" "''idA''" ex_previewed]
    getSheetData_request_encoded [of "[0xD83D, 0xDE00]" "''idA''" ex_previewed]
  by (simp add: isWellFormed_def getSheetData_request_def handleSheetSelect_begin_def
      API_BASE_URL_def hexValue_def ex_previewed_def ex_A_def encoder_defs)

text \<open>
  The claim as stated fails for a sheet name with a lone surrogate: no path is built
  and no request is sent. With such a sheet in the list, the click on its button ends
  with the banner \<open>Failed to load sheet data\<close> and nothing in flight.
\<close>

theorem lone_surrogate_counterexample:
  "encodeURIComponent [0xD800] = Inl URIError
   \<and> getSheetData_request ''idW'' [0xD800] = Inl (Error ''Failed to fetch sheet data'')
   \<and> run (mount ex_loc)
       [Arrive 0 (A_status (Resolved True)),
        Arrive 0 (A_spreadsheets (Resolved [ex_W])),
        Click (E_spreadsheet ex_W),
        Click (E_sheet [0xD800])]
       = Some \<lparr>cstate =
                 \<lparr>isAuthenticated = True, isLoading = False, spreadsheets = [ex_W],
                  selectedSpreadsheet = Some ex_W, selectedSheet = [0xD800],
                  sheetData = None, error = ''Failed to load sheet data''\<rparr>,
               cloc = ex_loc, pending = [], navigated = None\<rparr>"
  by (simp add: machine_defs handler_defs initial_state_def ex_loc_def ex_W_def
      getSheetData_request_def encoder_defs)

subsection \<open>The preview table\<close>

lemma js_or_index: "js_or (js_index row c) [] = (if c < length row then row ! c else [])"
  by (simp add: js_index_def)

lemma renderRow_eq:
  "renderRow hs row = take (length hs) row @ replicate (length hs - length row) []"
  by (rule nth_equalityI) (auto simp: renderRow_def js_or_index nth_append)

lemma renderRow_short:
  "length row < length hs \<Longrightarrow> renderRow hs row = row @ replicate (length hs - length row) []"
  by (simp add: renderRow_eq)

text \<open>
  C8, as amended. For every preview and every data row that is shorter than the
  headers, the table is rendered (nothing throws) and has the first five data rows, or
  all of them when there are fewer: if the row is among the first five, the table shows
  it at its position, its own cells followed by one empty string for each missing
  cell; a row after the fifth is not in the table, short or not.
\<close>

theorem renderTable_short_row:
  assumes "i < length (data d)" and "length (data d ! i) < length (headers d)"
  shows "\<exists>t. renderTable d = Some t
           \<and> length (tbody t) = min 5 (length (data d))
           \<and> (i < 5 \<longrightarrow>
                tbody t ! i
                  = data d ! i @ replicate (length (headers d) - length (data d ! i)) [])
           \<and> (5 \<le> i \<longrightarrow> length (tbody t) \<le> i)"
proof -
  from assms(2) have "0 < length (headers d)" by (cases "headers d") simp_all
  then obtain t where t: "renderTable d = Some t"
    and body: "tbody t = map (renderRow (headers d)) (take 5 (data d))"
    by (simp add: renderTable_def)
  from body have len: "length (tbody t) = min 5 (length (data d))" by simp
  have row: "tbody t ! i
      = data d ! i @ replicate (length (headers d) - length (data d ! i)) []" if "i < 5"
  proof -
    from that assms(1) have "i < length (take 5 (data d))" by simp
    with body have "tbody t ! i = renderRow (headers d) (data d ! i)" by simp
    with assms(2) show ?thesis by (simp add: renderRow_short)
  qed
  from t len row show ?thesis by auto
qed

theorem renderTable_short_row_witness:
  "headers ex_preview = [''A'', ''B'', ''C'']
   \<and> data ex_preview = [[''1'', ''2'']]
   \<and> map_option tbody (renderTable ex_preview) = Some [[''1'', ''2'', []]]
   \<and> data ex_short ! 3 = [''4'']
   \<and> map_option (\<lambda>t. tbody t ! 3) (renderTable ex_short) = Some [''4'', []]"
  using renderTable_short_row [of 0 ex_preview] renderTable_short_row [of 3 ex_short]
  by (simp add: renderTable_def renderRow_eq ex_preview_def ex_short_def)

text \<open>
  The claim as stated fails for a short row after the fifth: all six rows of \<open>ex_short\<close>
  are shorter than its headers, and the table omits the sixth.
\<close>

theorem renderTable_sixth_row_counterexample:
  "length (headers ex_short) = 2
   \<and> map length (data ex_short) = [1, 1, 1, 1, 1, 1]
   \<and> data ex_short ! 5 = [''6'']
   \<and> map_option tbody (renderTable ex_short)
       = Some [[''1'', []], [''2'', []], [''3'', []], [''4'', []], [''5'', []]]"
  by (simp add: renderTable_def renderRow_eq ex_short_def)

text \<open>
  C9, as amended. For every preview with at least one header, the table shows exactly
  the first min(5, number of data rows) rows in their order, every shown row has
  exactly as many cells as there are headers (cells beyond the header count are
  dropped, missing cells are empty), and the note with the total row count is there
  exactly when there are more than 5 rows. For a preview with no header there is no
  table and no note.
\<close>

theorem renderTable_rows:
  "(headers d = [] \<longrightarrow> renderTable d = None)
   \<and> (headers d \<noteq> [] \<longrightarrow>
        (\<exists>t. renderTable d = Some t
           \<and> thead t = headers d
           \<and> length (tbody t) = min 5 (length (data d))
           \<and> (\<forall>i < length (tbody t).
                 tbody t ! i = take (length (headers d)) (data d ! i)
                               @ replicate (length (headers d) - length (data d ! i)) []
                 \<and> length (tbody t ! i) = length (headers d))
           \<and> table_note t = (if 5 < length (data d) then Some (length (data d)) else None)))"
  by (auto simp: renderTable_def renderRow_eq)

theorem renderTable_rows_witness:
  "headers ex_long = [''A'', ''B'']
   \<and> length (data ex_long) = 6
   \<and> renderTable ex_long =
       Some \<lparr>thead = [''A'', ''B''],
             tbody = [[''1'', ''x''], [''2'', []], [''3'', []], [''4'', []], [''5'', []]],
             table_note = Some 6\<rparr>
   \<and> map_option table_note (renderTable ex_preview) = Some None"
  using renderTable_rows [of ex_long] renderTable_rows [of ex_preview]
  by (simp add: renderTable_def renderRow_eq ex_long_def ex_six_def ex_preview_def)

text \<open>
  The claim as stated fails for a preview without headers: \<open>ex_headless\<close> has six data
  rows, and neither rows nor the note are rendered.
\<close>

theorem renderTable_no_headers_counterexample:
  "headers ex_headless = []
   \<and> length (data ex_headless) = 6
   \<and> renderTable ex_headless = None"
  by (simp add: renderTable_def ex_headless_def ex_six_def)

subsection \<open>The error banner\<close>

text \<open>
  C10. Login and the load of the spreadsheet list always issue a request; sheet
  selection and send to backend issue one unless they return at once (no spreadsheet
  selected, no preview). Whenever one of the four issues its request, it has set the
  error to the empty string before, so the banner of an earlier failure is gone. Logout
  issues its request with the error as it was.
\<close>

theorem request_clears_error:
  "error (fst (handleLogin_begin s)) = [] \<and> snd (handleLogin_begin s) \<noteq> None
   \<and> error (fst (loadSpreadsheets_begin s)) = [] \<and> snd (loadSpreadsheets_begin s) \<noteq> None
   \<and> (snd (handleSheetSelect_begin s n) \<noteq> None
        \<longrightarrow> error (fst (handleSheetSelect_begin s n)) = [])
   \<and> (snd (sendToBackend_begin s) \<noteq> None \<longrightarrow> error (fst (sendToBackend_begin s)) = [])
   \<and> error (fst (handleLogout_begin s)) = error s \<and> snd (handleLogout_begin s) \<noteq> None"
  by (auto simp: handler_defs split: option.splits sum.splits)

theorem request_clears_error_witness:
  "errorBanner (handleLogout ex_previewed Rejected) = Some ''Failed to logout''
   \<and> errorBanner (fst (handleLogin_begin (handleLogout ex_previewed Rejected))) = None
   \<and> errorBanner (fst (loadSpreadsheets_begin (handleLogout ex_previewed Rejected))) = None
   \<and> snd (handleSheetSelect_begin (handleLogout ex_previewed Rejected) (js ''Sales Q1''))
       \<noteq> None
   \<and> errorBanner
        (fst (handleSheetSelect_begin (handleLogout ex_previewed Rejected) (js ''Sales Q1'')))
       = None
   \<and> snd (sendToBackend_begin (handleLogout ex_previewed Rejected)) \<noteq> None
   \<and> errorBanner (fst (sendToBackend_begin (handleLogout ex_previewed Rejected))) = None
   \<and> errorBanner (fst (handleLogout_begin (handleLogout ex_previewed Rejected)))
       = Some ''Failed to logout''"
  using request_clears_error [of "handleLogout ex_previewed Rejected" "js ''Sales Q1''"]
  by (simp add: errorBanner_def handler_defs ex_previewed_def ex_A_def
      getSheetData_request_def encoder_defs)

end
